theory Spec2Isabelle
  imports Main "HOL-Library.Multiset" "HOL-Library.Option_ord"
begin

section \<open>Values, rows and frames\<close>

text \<open>
  The repository's functions build Spark column expressions and frame transformations.
  A frame is a schema (the column names, in order, duplicates possible) and a list of
  rows; a row is the list of its cells, one per column. A cell is a nullable value.
\<close>

datatype date = Date (year: int) (month: nat) (day: nat)

datatype cell = Null | IntV int | BoolV bool | DateV date | StrV string

datatype error =
    UnresolvedColumn string
  | AmbiguousReference string
  | TypeMismatch
  | MalformedRow
  | PythonTypeError

type_synonym row = "cell list"

record frame =
  columns :: "string list"
  rows :: "row list"

text \<open>
  A column expression is resolved against a schema (analysis, which may fail) and then
  evaluated on each row (which may fail as well).
\<close>

type_synonym column = "string list \<Rightarrow> error + (row \<Rightarrow> error + cell)"

definition bind_err :: "error + 'a \<Rightarrow> ('a \<Rightarrow> error + 'b) \<Rightarrow> error + 'b" where
  "bind_err m f = (case m of Inl e \<Rightarrow> Inl e | Inr x \<Rightarrow> f x)"

fun traverse :: "('a \<Rightarrow> error + 'b) \<Rightarrow> 'a list \<Rightarrow> error + 'b list" where
  "traverse f [] = Inr []"
| "traverse f (x # xs) =
     bind_err (f x) (\<lambda>y. bind_err (traverse f xs) (\<lambda>ys. Inr (y # ys)))"

definition wf_frame :: "frame \<Rightarrow> bool" where
  "wf_frame f = list_all (\<lambda>r. length r = length (columns f)) (rows f)"

section \<open>The engine's column primitives\<close>

text \<open>
  Modelled from the spec: the dataframe engine is an external collaborator, so its
  primitives are written down from their contract (section 4.1 and 6 of the
  specification, and the comment in \<open>ranges_overlap\<close>): comparisons with a null operand
  are null, \<open>null | True = True\<close>, \<open>null | False = null\<close>, \<open>null | null = null\<close>,
  \<open>~null = null\<close>, and \<open>coalesce\<close> picks the first non-null value. Nullable booleans
  are \<open>bool option\<close>, nullable integers \<open>int option\<close>.
\<close>

fun positions :: "string list \<Rightarrow> string \<Rightarrow> nat list" where
  "positions [] c = []"
| "positions (x # xs) c =
     (if x = c then 0 # map Suc (positions xs c) else map Suc (positions xs c))"

definition resolve :: "string list \<Rightarrow> string \<Rightarrow> error + nat" where
  "resolve cols c =
     (case positions cols c of
        [] \<Rightarrow> Inl (UnresolvedColumn c)
      | [i] \<Rightarrow> Inr i
      | _ \<Rightarrow> Inl (AmbiguousReference c))"

definition col :: "string \<Rightarrow> column" where
  "col c cols =
     bind_err (resolve cols c)
       (\<lambda>i. Inr (\<lambda>r. if i < length r then Inr (r ! i) else Inl MalformedRow))"

definition lit :: "cell \<Rightarrow> column" where
  "lit v cols = Inr (\<lambda>r. Inr v)"

definition lift1 :: "(cell \<Rightarrow> error + cell) \<Rightarrow> column \<Rightarrow> column" where
  "lift1 f a cols = bind_err (a cols) (\<lambda>ea. Inr (\<lambda>r. bind_err (ea r) f))"

definition lift2 :: "(cell \<Rightarrow> cell \<Rightarrow> error + cell) \<Rightarrow> column \<Rightarrow> column \<Rightarrow> column" where
  "lift2 f a b cols =
     bind_err (a cols) (\<lambda>ea. bind_err (b cols) (\<lambda>eb.
       Inr (\<lambda>r. bind_err (ea r) (\<lambda>x. bind_err (eb r) (\<lambda>y. f x y)))))"

fun as_bool :: "cell \<Rightarrow> error + bool option" where
  "as_bool Null = Inr None"
| "as_bool (BoolV b) = Inr (Some b)"
| "as_bool _ = Inl TypeMismatch"

fun as_int :: "cell \<Rightarrow> error + int option" where
  "as_int Null = Inr None"
| "as_int (IntV n) = Inr (Some n)"
| "as_int _ = Inl TypeMismatch"

fun of_bool_opt :: "bool option \<Rightarrow> cell" where
  "of_bool_opt None = Null"
| "of_bool_opt (Some b) = BoolV b"

fun gt3 :: "int option \<Rightarrow> int option \<Rightarrow> bool option" where
  "gt3 (Some a) (Some b) = Some (a > b)"
| "gt3 _ _ = None"

fun lt3 :: "int option \<Rightarrow> int option \<Rightarrow> bool option" where
  "lt3 (Some a) (Some b) = Some (a < b)"
| "lt3 _ _ = None"

fun or3 :: "bool option \<Rightarrow> bool option \<Rightarrow> bool option" where
  "or3 (Some True) _ = Some True"
| "or3 _ (Some True) = Some True"
| "or3 (Some False) (Some False) = Some False"
| "or3 _ _ = None"

fun not3 :: "bool option \<Rightarrow> bool option" where
  "not3 None = None"
| "not3 (Some b) = Some (\<not> b)"

definition cell_gt :: "cell \<Rightarrow> cell \<Rightarrow> error + cell" where
  "cell_gt x y =
     bind_err (as_int x) (\<lambda>a. bind_err (as_int y) (\<lambda>b. Inr (of_bool_opt (gt3 a b))))"

definition cell_lt :: "cell \<Rightarrow> cell \<Rightarrow> error + cell" where
  "cell_lt x y =
     bind_err (as_int x) (\<lambda>a. bind_err (as_int y) (\<lambda>b. Inr (of_bool_opt (lt3 a b))))"

definition cell_or :: "cell \<Rightarrow> cell \<Rightarrow> error + cell" where
  "cell_or x y =
     bind_err (as_bool x) (\<lambda>a. bind_err (as_bool y) (\<lambda>b. Inr (of_bool_opt (or3 a b))))"

definition cell_not :: "cell \<Rightarrow> error + cell" where
  "cell_not x = bind_err (as_bool x) (\<lambda>a. Inr (of_bool_opt (not3 a)))"

fun first_non_null :: "cell list \<Rightarrow> cell" where
  "first_non_null [] = Null"
| "first_non_null (v # vs) = (if v = Null then first_non_null vs else v)"

definition col_gt :: "column \<Rightarrow> column \<Rightarrow> column" where
  "col_gt = lift2 cell_gt"

definition col_lt :: "column \<Rightarrow> column \<Rightarrow> column" where
  "col_lt = lift2 cell_lt"

definition col_or :: "column \<Rightarrow> column \<Rightarrow> column" where
  "col_or = lift2 cell_or"

definition col_not :: "column \<Rightarrow> column" where
  "col_not = lift1 cell_not"

definition coalesce :: "column list \<Rightarrow> column" where
  "coalesce cs cols =
     bind_err (traverse (\<lambda>c. c cols) cs)
       (\<lambda>es. Inr (\<lambda>r. bind_err (traverse (\<lambda>e. e r) es) (\<lambda>vs. Inr (first_non_null vs))))"

definition eval_at :: "column \<Rightarrow> string list \<Rightarrow> row \<Rightarrow> error + cell" where
  "eval_at c cols r = bind_err (c cols) (\<lambda>e. e r)"

section \<open>Range overlap (f_common_business_logic_methods.py)\<close>

text \<open>
  \<^verbatim>\<open>
  def ranges_overlap(start1, stop1, start2, stop2):
      return psf.coalesce(
          ~((start1 > stop2) | (stop1 < start2)),
          psf.lit(True),
      )
  \<close>
\<close>

definition ranges_overlap :: "column \<Rightarrow> column \<Rightarrow> column \<Rightarrow> column \<Rightarrow> column" where
  "ranges_overlap start1 stop1 start2 stop2 =
     coalesce [col_not (col_or (col_gt start1 stop2) (col_lt stop1 start2)),
               lit (BoolV True)]"

text \<open>
  An interval is a pair of optional bounds. \<open>overlaps a b\<close> is the cell that
  \<open>ranges_overlap\<close> computes on the row holding the four bounds, as the frame with
  columns \<open>a, b, c, d\<close> in the source's demonstration does.
\<close>

record interval =
  start :: "int option"
  stop :: "int option"

fun bound_cell :: "int option \<Rightarrow> cell" where
  "bound_cell None = Null"
| "bound_cell (Some n) = IntV n"

definition overlaps :: "interval \<Rightarrow> interval \<Rightarrow> error + cell" where
  "overlaps a b =
     eval_at (ranges_overlap (col ''a'') (col ''b'') (col ''c'') (col ''d''))
       [''a'', ''b'', ''c'', ''d'']
       [bound_cell (start a), bound_cell (stop a), bound_cell (start b), bound_cell (stop b)]"

text \<open>
  The specification's wording of the predicate, over a tri-state type of its own:
  the candidate \<open>NOT ((a.start > b.stop) OR (a.stop < b.start))\<close> with unknown
  comparisons, coalesced with the default true.
\<close>

datatype tri = T | F | U

fun tri_of_bool :: "bool \<Rightarrow> tri" where
  "tri_of_bool True = T"
| "tri_of_bool False = F"

fun tri_gt :: "int option \<Rightarrow> int option \<Rightarrow> tri" where
  "tri_gt None _ = U"
| "tri_gt _ None = U"
| "tri_gt (Some x) (Some y) = tri_of_bool (x > y)"

fun tri_lt :: "int option \<Rightarrow> int option \<Rightarrow> tri" where
  "tri_lt None _ = U"
| "tri_lt _ None = U"
| "tri_lt (Some x) (Some y) = tri_of_bool (x < y)"

fun tri_or :: "tri \<Rightarrow> tri \<Rightarrow> tri" where
  "tri_or T _ = T"
| "tri_or _ T = T"
| "tri_or F F = F"
| "tri_or _ _ = U"

fun tri_not :: "tri \<Rightarrow> tri" where
  "tri_not T = F"
| "tri_not F = T"
| "tri_not U = U"

fun tri_coalesce :: "tri \<Rightarrow> bool \<Rightarrow> bool" where
  "tri_coalesce T d = True"
| "tri_coalesce F d = False"
| "tri_coalesce U d = d"

definition overlaps_spec :: "interval \<Rightarrow> interval \<Rightarrow> bool" where
  "overlaps_spec a b =
     tri_coalesce (tri_not (tri_or (tri_gt (start a) (stop b)) (tri_lt (stop a) (start b)))) True"

section \<open>The engine's frame primitives\<close>

text \<open>
  Modelled from the spec: \<open>withColumn\<close>, \<open>join\<close>, \<open>na.fill\<close>, \<open>createDataFrame\<close>,
  \<open>select\<close>, \<open>isin\<close> and \<open>dayofweek\<close> belong to the external dataframe engine
  (section 6 of the specification). \<open>withColumn\<close> adds a column, or replaces every
  column that already has that name. A join on a column name keeps every left row, puts
  the join column first, then the other left columns, then the other right columns;
  a null key matches nothing and an unmatched left row gets nulls. The engine gives no
  guarantee on the order of the rows of a join (section 5 of the specification): the
  session \<open>spark\<close> stands for the engine's choice, as a rank it gives to each row of the
  result, and the join returns its rows sorted by that rank. Every arrangement of the
  rows is the sort by some rank; \<open>sort_merge\<close> is the rank of a sort-merge join, which
  returns the rows in the order of the join key, null keys first. \<open>na.fill\<close> resolves
  each name of its subset in the frame and replaces the nulls of that column.
  \<open>dayofweek\<close> is 1 for a Sunday through 7 for a Saturday. Frames are lazy in the
  engine; the model gives what an action on the result observes. A frame whose rows do
  not match its schema does not exist in the engine and is rejected. Column names are
  compared exactly. A name that occurs twice in a schema is ambiguous wherever it has
  to be resolved (\<open>col\<close>, the join column, the subset of \<open>na.fill\<close>). Cells carry
  their own type; a date function applied to a cell that is neither a date nor null is
  a type mismatch.
\<close>

definition checked :: "frame \<Rightarrow> error + frame" where
  "checked f = (if wf_frame f then Inr f else Inl MalformedRow)"

definition days_from_civil :: "date \<Rightarrow> int" where
  "days_from_civil dt =
     (let y = (if month dt \<le> 2 then year dt - 1 else year dt);
          era = y div 400;
          yoe = y - era * 400;
          mp = (int (month dt) + 9) mod 12;
          doy = (153 * mp + 2) div 5 + int (day dt) - 1;
          doe = yoe * 365 + yoe div 4 - yoe div 100 + doy
      in era * 146097 + doe - 719468)"

definition dayofweek_date :: "date \<Rightarrow> int" where
  "dayofweek_date dt = (days_from_civil dt + 4) mod 7 + 1"

fun cell_dayofweek :: "cell \<Rightarrow> error + cell" where
  "cell_dayofweek Null = Inr Null"
| "cell_dayofweek (DateV d) = Inr (IntV (dayofweek_date d))"
| "cell_dayofweek _ = Inl TypeMismatch"

definition dayofweek :: "column \<Rightarrow> column" where
  "dayofweek = lift1 cell_dayofweek"

definition cell_isin :: "cell list \<Rightarrow> cell \<Rightarrow> error + cell" where
  "cell_isin vs x =
     Inr (if x = Null then Null
          else if x \<in> set vs then BoolV True
          else if Null \<in> set vs then Null
          else BoolV False)"

definition isin :: "column \<Rightarrow> cell list \<Rightarrow> column" where
  "isin c vs = lift1 (cell_isin vs) c"

definition put_cell :: "string list \<Rightarrow> string \<Rightarrow> cell \<Rightarrow> row \<Rightarrow> row" where
  "put_cell cols name v r =
     (if name \<in> set cols then map (\<lambda>(n, x). if n = name then v else x) (zip cols r)
      else r @ [v])"

definition withColumn :: "frame \<Rightarrow> string \<Rightarrow> column \<Rightarrow> error + frame" where
  "withColumn frame0 name c =
     bind_err (checked frame0) (\<lambda>f.
     bind_err (c (columns f)) (\<lambda>e.
     bind_err (traverse (\<lambda>r. bind_err (e r) (\<lambda>v. Inr (put_cell (columns f) name v r)))
                 (rows f)) (\<lambda>rs.
       Inr \<lparr>columns = (if name \<in> set (columns f) then columns f else columns f @ [name]),
            rows = rs\<rparr>)))"

definition createDataFrame :: "row list \<Rightarrow> string list \<Rightarrow> frame" where
  "createDataFrame data schema = \<lparr>columns = schema, rows = data\<rparr>"

definition drop_at :: "nat \<Rightarrow> 'a list \<Rightarrow> 'a list" where
  "drop_at i xs = take i xs @ drop (Suc i) xs"

type_synonym session = "row \<Rightarrow> int option"

definition sort_merge :: session where
  "sort_merge r =
     (case r of
        DateV d # _ \<Rightarrow> Some (days_from_civil d)
      | _ \<Rightarrow> None)"

definition join_left :: "session \<Rightarrow> frame \<Rightarrow> frame \<Rightarrow> string \<Rightarrow> error + frame" where
  "join_left spark left0 right0 on =
     bind_err (checked left0) (\<lambda>l.
     bind_err (checked right0) (\<lambda>r.
     bind_err (resolve (columns l) on) (\<lambda>i.
     bind_err (resolve (columns r) on) (\<lambda>j.
       Inr \<lparr>columns = on # drop_at i (columns l) @ drop_at j (columns r),
            rows = sort_key spark (concat (map (\<lambda>a.
              (case filter (\<lambda>b. a ! i \<noteq> Null \<and> b ! j = a ! i) (rows r) of
                 [] \<Rightarrow> [a ! i # drop_at i a @ replicate (length (columns r) - 1) Null]
               | m # ms \<Rightarrow> map (\<lambda>b. a ! i # drop_at i a @ drop_at j b) (m # ms)))
              (rows l)))\<rparr>))))"

definition fill_column :: "bool \<Rightarrow> string \<Rightarrow> frame \<Rightarrow> error + frame" where
  "fill_column v name frame0 =
     bind_err (checked frame0) (\<lambda>f.
     bind_err (resolve (columns f) name) (\<lambda>i.
       Inr \<lparr>columns = columns f,
            rows = map (\<lambda>r. if r ! i = Null then r[i := BoolV v] else r) (rows f)\<rparr>))"

fun na_fill :: "bool \<Rightarrow> string list \<Rightarrow> frame \<Rightarrow> error + frame" where
  "na_fill v [] f = Inr f"
| "na_fill v (name # names) f = bind_err (fill_column v name f) (na_fill v names)"

definition select :: "frame \<Rightarrow> string list \<Rightarrow> error + frame" where
  "select frame0 names =
     bind_err (checked frame0) (\<lambda>f.
     bind_err (traverse (\<lambda>n. col n (columns f)) names) (\<lambda>es.
     bind_err (traverse (\<lambda>r. traverse (\<lambda>e. e r) es) (rows f)) (\<lambda>rs.
       Inr \<lparr>columns = names, rows = rs\<rparr>)))"

section \<open>The calendar library\<close>

text \<open>
  Modelled from the spec: the \<open>holidays\<close> library is external. A calendar gives, for a
  year, the (month, day) pairs of that year's public holidays; populating a year adds
  the dates of that year. \<open>holidays.BE(years=ys)\<close> is a dictionary keyed by the dates of
  the years \<open>ys\<close>, so its keys are distinct. A membership test on the dictionary first
  populates the year of the tested date when it is missing, and raises a TypeError
  for a key that is not a date. A user-defined function receives \<open>None\<close> for a null cell.
\<close>

type_synonym calendar = "int \<Rightarrow> (nat \<times> nat) list"

definition populate :: "calendar \<Rightarrow> int \<Rightarrow> date list" where
  "populate cal y = map (\<lambda>(m, d). Date y m d) (cal y)"

fun dict_keys :: "'a list \<Rightarrow> 'a list" where
  "dict_keys [] = []"
| "dict_keys (x # xs) = x # filter (\<lambda>y. y \<noteq> x) (dict_keys xs)"

definition BE :: "calendar \<Rightarrow> int list \<Rightarrow> date list" where
  "BE cal ys = dict_keys (concat (map (populate cal) ys))"

definition BE_contains :: "calendar \<Rightarrow> int list \<Rightarrow> date \<Rightarrow> bool" where
  "BE_contains cal ys d =
     (d \<in> set (BE cal (if year d \<in> set ys then ys else ys @ [year d])))"

definition range_py :: "int \<Rightarrow> int \<Rightarrow> int list" where
  "range_py a b = [a..b - 1]"

definition udf :: "(date option \<Rightarrow> error + bool) \<Rightarrow> column \<Rightarrow> column" where
  "udf f =
     lift1 (\<lambda>v. case v of
                  Null \<Rightarrow> bind_err (f None) (\<lambda>b. Inr (BoolV b))
                | DateV d \<Rightarrow> bind_err (f (Some d)) (\<lambda>b. Inr (BoolV b))
                | _ \<Rightarrow> Inl TypeMismatch)"

section \<open>The labellers (dates_solution.py)\<close>

text \<open>
  \<^verbatim>\<open>
  def is_belgian_holiday(date):
      belgian_holidays = holidays.BE()
      return date in belgian_holidays

  def label_weekend(frame, colname="date", new_colname="is_weekend"):
      return frame.withColumn(new_colname, dayofweek(col(colname)).isin(1, 7))

  def label_holidays(frame, colname="date", new_colname="is_belgian_holiday"):
      holiday_udf = udf(is_belgian_holiday, BooleanType())
      return frame.withColumn(new_colname, holiday_udf(col(colname)))

  def label_holidays2(frame, colname="date", new_colname="is_belgian_holiday"):
      holidays_be = holidays.BE(years=list(range(2015, 2020)))
      return frame.withColumn(
          new_colname, col(colname).isin(list(holidays_be.keys())))

  def label_holidays3(frame, colname="date", new_colname="is_belgian_holiday"):
      holidays_be = holidays.BE(years=list(range(2015, 2020)))
      spark = SparkSession.builder.getOrCreate()
      holidays_frame = spark.createDataFrame(
          data=[(day, True) for day in holidays_be.keys()],
          schema=StructType([StructField(colname, DateType(), False),
                             StructField(new_colname, BooleanType(), False)]))
      return frame.join(holidays_frame, on=colname, how="left").na.fill(
          False, subset=[new_colname])
  \<close>
  The calendar of the library is a parameter \<open>cal\<close> of the model, and so is the
  session \<open>spark\<close> that \<open>label_holidays3\<close> obtains from the builder. The holiday frame of
  \<open>label_holidays3\<close> is a definition of its own, so that lemmas can speak of it.
\<close>

definition is_belgian_holiday :: "calendar \<Rightarrow> date option \<Rightarrow> error + bool" where
  "is_belgian_holiday cal date =
     (case date of
        None \<Rightarrow> Inl PythonTypeError
      | Some d \<Rightarrow> Inr (BE_contains cal [] d))"

definition label_weekend :: "frame \<Rightarrow> string \<Rightarrow> string \<Rightarrow> error + frame" where
  "label_weekend frame colname new_colname =
     withColumn frame new_colname (isin (dayofweek (col colname)) [IntV 1, IntV 7])"

definition label_holidays :: "calendar \<Rightarrow> frame \<Rightarrow> string \<Rightarrow> string \<Rightarrow> error + frame" where
  "label_holidays cal frame colname new_colname =
     (let holiday_udf = udf (is_belgian_holiday cal)
      in withColumn frame new_colname (holiday_udf (col colname)))"

definition label_holidays2 :: "calendar \<Rightarrow> frame \<Rightarrow> string \<Rightarrow> string \<Rightarrow> error + frame" where
  "label_holidays2 cal frame colname new_colname =
     (let holidays_be = BE cal (range_py 2015 2020)
      in withColumn frame new_colname (isin (col colname) (map DateV holidays_be)))"

definition holidays_frame :: "calendar \<Rightarrow> string \<Rightarrow> string \<Rightarrow> frame" where
  "holidays_frame cal colname new_colname =
     (let holidays_be = BE cal (range_py 2015 2020)
      in createDataFrame (map (\<lambda>day. [DateV day, BoolV True]) holidays_be)
           [colname, new_colname])"

definition label_holidays3 ::
  "calendar \<Rightarrow> session \<Rightarrow> frame \<Rightarrow> string \<Rightarrow> string \<Rightarrow> error + frame" where
  "label_holidays3 cal spark frame colname new_colname =
     bind_err (join_left spark frame (holidays_frame cal colname new_colname) colname)
       (na_fill False [new_colname])"

text \<open>
  The hypotheses of the theorems below: the date column has the date type (its cells are
  dates or null), or all its dates lie in a range of years.
\<close>

definition has_date_type :: "frame \<Rightarrow> nat \<Rightarrow> bool" where
  "has_date_type f k =
     list_all (\<lambda>r. case r ! k of Null \<Rightarrow> True | DateV d \<Rightarrow> True | _ \<Rightarrow> False) (rows f)"

definition dates_within :: "frame \<Rightarrow> nat \<Rightarrow> int \<Rightarrow> int \<Rightarrow> bool" where
  "dates_within f k lo hi =
     list_all (\<lambda>r. case r ! k of DateV d \<Rightarrow> lo \<le> year d \<and> year d \<le> hi | _ \<Rightarrow> False) (rows f)"

text \<open>
  A sample calendar for the concrete instances: the Belgian public holidays that fall
  on a fixed date.
\<close>

definition fixed_be :: calendar where
  "fixed_be y = [(1, 1), (5, 1), (7, 21), (8, 15), (11, 1), (11, 11), (12, 25)]"

section \<open>Evaluation lemmas\<close>

lemma bind_err_Inl [simp]: "bind_err (Inl e) f = Inl e"
  by (simp add: bind_err_def)

lemma bind_err_Inr [simp]: "bind_err (Inr x) f = f x"
  by (simp add: bind_err_def)

lemma overlaps_eval:
  "overlaps a b =
     Inr (first_non_null
       [of_bool_opt (not3 (or3 (gt3 (start a) (stop b)) (lt3 (stop a) (start b)))),
        BoolV True])"
proof -
  have a: "as_int (bound_cell x) = Inr x" for x
    by (cases x) simp_all
  have b: "as_bool (of_bool_opt x) = Inr x" for x
    by (cases x) simp_all
  show ?thesis
    by (simp add: overlaps_def eval_at_def ranges_overlap_def coalesce_def col_not_def
        col_or_def col_gt_def col_lt_def lift1_def lift2_def col_def resolve_def lit_def
        cell_gt_def cell_lt_def cell_or_def cell_not_def a b)
qed

lemma or3_bool:
  "or3 (Some p) (Some q) = Some (p \<or> q)"
  "or3 (Some p) None = (if p then Some True else None)"
  "or3 None (Some q) = (if q then Some True else None)"
  by (cases p; cases q; simp)+

lemma tri_or_bool:
  "tri_or (tri_of_bool p) (tri_of_bool q) = tri_of_bool (p \<or> q)"
  "tri_or (tri_of_bool p) U = (if p then T else U)"
  "tri_or U (tri_of_bool q) = (if q then T else U)"
  by (cases p; cases q; simp)+

lemma tri_not_bool: "tri_not (tri_of_bool p) = tri_of_bool (\<not> p)"
  by (cases p) simp_all

lemma tri_coalesce_bool: "tri_coalesce (tri_of_bool p) d = p"
  by (cases p) simp_all

section \<open>The range-overlap predicate\<close>

text \<open>
  C1. For every pair of intervals, each bound optionally absent, \<open>overlaps a b\<close> as
  computed by \<open>ranges_overlap\<close> never fails and equals the specification's
  three-valued expression \<open>NOT ((a.start > b.stop) OR (a.stop < b.start))\<close>, with
  unknown comparisons on absent bounds, coalesced with the default true.
\<close>

theorem overlaps_refines_spec: "overlaps a b = Inr (BoolV (overlaps_spec a b))"
proof -
  have g: "tri_coalesce (tri_not (tri_or (tri_gt x y) (tri_lt u v))) True =
      (case not3 (or3 (gt3 x y) (lt3 u v)) of None \<Rightarrow> True | Some c \<Rightarrow> c)"
    for x y u v
    by (cases x; cases y; cases u; cases v)
      (simp_all add: or3_bool tri_or_bool tri_not_bool tri_coalesce_bool)
  have h: "first_non_null [of_bool_opt z, BoolV True] =
      BoolV (case z of None \<Rightarrow> True | Some c \<Rightarrow> c)" for z
    by (cases z) simp_all
  show ?thesis
    by (simp only: overlaps_eval overlaps_spec_def g h)
qed

text \<open>
  C3. The seven rows of the specification's truth table:
  \<open>{0,5}\<close> against \<open>{-5,-1}\<close> is false, against \<open>{-5,2}\<close> true, against \<open>{1,7}\<close> true,
  against \<open>{6,7}\<close> false, against \<open>{-5,None}\<close> true; \<open>{0,None}\<close> against \<open>{-5,-1}\<close> is
  false and against \<open>{5,10}\<close> true.
\<close>

theorem overlaps_truth_table:
  "overlaps \<lparr>start = Some 0, stop = Some 5\<rparr> \<lparr>start = Some (- 5), stop = Some (- 1)\<rparr>
     = Inr (BoolV False)
   \<and> overlaps \<lparr>start = Some 0, stop = Some 5\<rparr> \<lparr>start = Some (- 5), stop = Some 2\<rparr>
     = Inr (BoolV True)
   \<and> overlaps \<lparr>start = Some 0, stop = Some 5\<rparr> \<lparr>start = Some 1, stop = Some 7\<rparr>
     = Inr (BoolV True)
   \<and> overlaps \<lparr>start = Some 0, stop = Some 5\<rparr> \<lparr>start = Some 6, stop = Some 7\<rparr>
     = Inr (BoolV False)
   \<and> overlaps \<lparr>start = Some 0, stop = Some 5\<rparr> \<lparr>start = Some (- 5), stop = None\<rparr>
     = Inr (BoolV True)
   \<and> overlaps \<lparr>start = Some 0, stop = None\<rparr> \<lparr>start = Some (- 5), stop = Some (- 1)\<rparr>
     = Inr (BoolV False)
   \<and> overlaps \<lparr>start = Some 0, stop = None\<rparr> \<lparr>start = Some 5, stop = Some 10\<rparr>
     = Inr (BoolV True)"
  by (simp add: overlaps_eval)

text \<open>
  C4. Swapping the two ranges does not change the result, whichever bounds are absent.
\<close>

theorem overlaps_symmetric: "overlaps a b = overlaps b a"
proof -
  have c: "or3 x y = or3 y x" for x y
    by (cases x; cases y) (auto simp add: or3_bool)
  have s: "gt3 x y = lt3 y x" for x y
    by (cases x; cases y) auto
  show ?thesis
    by (simp add: overlaps_eval s c [of "lt3 (stop b) (start a)"])
qed

text \<open>
  C5. When all four bounds are present, the result is the finite-interval intersection
  test \<open>a.start \<le> b.stop \<and> b.start \<le> a.stop\<close>.
\<close>

theorem overlaps_finite_bounds:
  "overlaps \<lparr>start = Some s1, stop = Some e1\<rparr> \<lparr>start = Some s2, stop = Some e2\<rparr>
     = Inr (BoolV (s1 \<le> e2 \<and> s2 \<le> e1))"
  by (auto simp add: overlaps_eval or3_bool)

section \<open>Frames: resolution, traversal and \<open>withColumn\<close>\<close>

lemma bind_err_assoc: "bind_err (bind_err m f) g = bind_err m (\<lambda>x. bind_err (f x) g)"
  by (cases m) simp_all

lemma traverse_map:
  "(\<And>x. x \<in> set xs \<Longrightarrow> f x = Inr (g x)) \<Longrightarrow> traverse f xs = Inr (map g xs)"
  by (induction xs) simp_all

lemma traverse_Inr_all:
  "traverse f xs = Inr ys \<Longrightarrow> x \<in> set xs \<Longrightarrow> f x = Inr (projr (f x))"
proof (induction xs arbitrary: ys)
  case Nil
  then show ?case by simp
next
  case (Cons a xs)
  then show ?case
    by (cases "f a"; cases "traverse f xs") auto
qed

lemma positions_empty_iff: "positions xs c = [] \<longleftrightarrow> c \<notin> set xs"
  by (induction xs) auto

lemma positions_append:
  "positions (xs @ ys) c = positions xs c @ map (\<lambda>i. length xs + i) (positions ys c)"
  by (induction xs) (auto simp add: comp_def)

lemma positions_single:
  "positions xs c = [k] \<Longrightarrow>
     k < length xs \<and> xs ! k = c \<and> c \<notin> set (take k xs) \<and> c \<notin> set (drop (Suc k) xs)"
proof (induction xs arbitrary: k)
  case Nil
  then show ?case by simp
next
  case (Cons x xs)
  show ?case
  proof (cases "x = c")
    case True
    with Cons.prems have "k = 0" and "positions xs c = []"
      by auto
    with True show ?thesis
      by (simp add: positions_empty_iff)
  next
    case False
    with Cons.prems obtain j where j: "positions xs c = [j]" "k = Suc j"
      by (auto simp add: map_eq_Cons_conv)
    from Cons.IH [OF j(1)] False j(2) show ?thesis
      by simp
  qed
qed

lemma resolve_Inr: "resolve xs c = Inr k \<longleftrightarrow> positions xs c = [k]"
  by (auto simp add: resolve_def split: list.splits)

lemma resolve_facts:
  assumes "resolve xs c = Inr k"
  shows "k < length xs" and "xs ! k = c" and "c \<notin> set (drop_at k xs)" and "c \<in> set xs"
proof -
  from assms have p: "positions xs c = [k]"
    by (simp add: resolve_Inr)
  from positions_single [OF p] show "k < length xs" and "xs ! k = c"
    and "c \<notin> set (drop_at k xs)"
    by (simp_all add: drop_at_def)
  from p show "c \<in> set xs"
    using positions_empty_iff [of xs c] by auto
qed

lemma resolve_append_fresh: "n \<notin> set xs \<Longrightarrow> resolve (xs @ [n]) n = Inr (length xs)"
  using positions_empty_iff [of xs n] by (simp add: resolve_def positions_append)

lemma resolve_append_other: "c \<noteq> n \<Longrightarrow> resolve (xs @ [n]) c = resolve xs c"
  by (simp add: resolve_def positions_append)

lemma length_drop_at: "k < length xs \<Longrightarrow> length (drop_at k xs) = length xs - 1"
  by (auto simp add: drop_at_def)

lemma checked_wf: "wf_frame f \<Longrightarrow> checked f = Inr f"
  by (simp add: checked_def)

lemma checked_Inr: "checked f = Inr g \<Longrightarrow> g = f \<and> wf_frame f"
  by (auto simp add: checked_def split: if_splits)

lemma wf_frame_row: "wf_frame f \<Longrightarrow> r \<in> set (rows f) \<Longrightarrow> length r = length (columns f)"
  by (simp add: wf_frame_def list_all_iff)

lemma lift1_lift1: "lift1 f (lift1 g a) = lift1 (\<lambda>x. bind_err (g x) f) a"
proof
  fix cols
  show "lift1 f (lift1 g a) cols = lift1 (\<lambda>x. bind_err (g x) f) a cols"
    by (cases "a cols") (simp_all add: lift1_def bind_err_assoc)
qed

lemma withColumn_lift1_col:
  assumes wf: "wf_frame f"
    and res: "resolve (columns f) c = Inr k"
    and val: "\<And>r. r \<in> set (rows f) \<Longrightarrow> h (r ! k) = Inr (g (r ! k))"
  shows "withColumn f n (lift1 h (col c)) =
     Inr \<lparr>columns = (if n \<in> set (columns f) then columns f else columns f @ [n]),
          rows = map (\<lambda>r. put_cell (columns f) n (g (r ! k)) r) (rows f)\<rparr>"
proof -
  have k: "k < length (columns f)"
    using resolve_facts(1) [OF res] .
  have "traverse (\<lambda>r. bind_err (bind_err (if k < length r then Inr (r ! k) else Inl MalformedRow) h)
            (\<lambda>v. Inr (put_cell (columns f) n v r))) (rows f)
      = Inr (map (\<lambda>r. put_cell (columns f) n (g (r ! k)) r) (rows f))"
    by (rule traverse_map) (simp add: wf_frame_row [OF wf] k val)
  then show ?thesis
    by (simp add: withColumn_def checked_wf [OF wf] lift1_def col_def res)
qed

lemma put_cell_fresh: "n \<notin> set cols \<Longrightarrow> put_cell cols n v r = r @ [v]"
  by (simp add: put_cell_def)

lemma put_cell_nth_other:
  "length r = length cols \<Longrightarrow> k < length cols \<Longrightarrow> cols ! k \<noteq> n \<Longrightarrow>
     put_cell cols n v r ! k = r ! k"
  by (simp add: put_cell_def nth_append)

lemma put_cell_nth_named:
  assumes "length r = length cols"
    and "p < length (if n \<in> set cols then cols else cols @ [n])"
    and "(if n \<in> set cols then cols else cols @ [n]) ! p = n"
  shows "put_cell cols n v r ! p = v"
proof (cases "n \<in> set cols")
  case True
  with assms show ?thesis
    by (simp add: put_cell_def)
next
  case False
  with assms have "p = length cols"
    by (cases "p < length cols") (auto simp add: nth_append)
  with False assms(1) [symmetric] show ?thesis
    by (simp add: put_cell_def)
qed

lemma length_put_cell:
  "length r = length cols \<Longrightarrow>
     length (put_cell cols n v r) = length (if n \<in> set cols then cols else cols @ [n])"
  by (simp add: put_cell_def)

lemma put_cell_twice:
  assumes "length r = length cols"
  shows "put_cell (if n \<in> set cols then cols else cols @ [n]) n v (put_cell cols n v r)
     = put_cell cols n v r"
proof (cases "n \<in> set cols")
  case True
  with assms show ?thesis
    by (auto simp add: put_cell_def intro!: nth_equalityI)
next
  case False
  with assms show ?thesis
    by (auto simp add: put_cell_def nth_append intro!: nth_equalityI)
qed

lemma weekend_column:
  "isin (dayofweek (col c)) vs = lift1 (\<lambda>x. bind_err (cell_dayofweek x) (cell_isin vs)) (col c)"
  by (simp add: isin_def dayofweek_def lift1_lift1)

lemma weekend_cell:
  "bind_err (cell_dayofweek x) (cell_isin [IntV 1, IntV 7]) =
     (case x of
        Null \<Rightarrow> Inr Null
      | DateV d \<Rightarrow> Inr (BoolV (dayofweek_date d = 1 \<or> dayofweek_date d = 7))
      | _ \<Rightarrow> Inl TypeMismatch)"
  by (cases x) (auto simp add: cell_isin_def)

lemma has_date_type_row:
  "has_date_type f k \<Longrightarrow> r \<in> set (rows f) \<Longrightarrow> r ! k = Null \<or> (\<exists>d. r ! k = DateV d)"
proof -
  assume "has_date_type f k" and "r \<in> set (rows f)"
  then have "case r ! k of Null \<Rightarrow> True | DateV d \<Rightarrow> True | _ \<Rightarrow> False"
    by (simp add: has_date_type_def list_all_iff)
  then show ?thesis
    by (cases "r ! k") simp_all
qed

section \<open>The weekend labeller\<close>

text \<open>
  C6. On a frame that has the date column (of date type) and not yet the output column,
  \<open>label_weekend\<close> returns the rows of the input, in order, each with one cell
  appended under the new column name: true exactly when the day of the week of the
  row's date is 1 (Sunday) or 7 (Saturday), and null for a null date. The input frame
  is a value and is not changed. The instance below has a Saturday (2018-05-12, true)
  and a Wednesday (2018-05-16, false).
\<close>

theorem label_weekend_appends:
  assumes "wf_frame f"
    and "resolve (columns f) colname = Inr k"
    and "has_date_type f k"
    and "new_colname \<notin> set (columns f)"
  shows "label_weekend f colname new_colname =
     Inr \<lparr>columns = columns f @ [new_colname],
          rows = map (\<lambda>r. r @ [case r ! k of
                                 DateV d \<Rightarrow> BoolV (dayofweek_date d = 1 \<or> dayofweek_date d = 7)
                               | _ \<Rightarrow> Null]) (rows f)\<rparr>"
proof -
  let ?g = "\<lambda>x. case x of
      DateV d \<Rightarrow> BoolV (dayofweek_date d = 1 \<or> dayofweek_date d = 7) | _ \<Rightarrow> Null"
  have "bind_err (cell_dayofweek (r ! k)) (cell_isin [IntV 1, IntV 7]) = Inr (?g (r ! k))"
    if "r \<in> set (rows f)" for r
    using has_date_type_row [OF assms(3) that] by (auto simp add: weekend_cell)
  from withColumn_lift1_col [OF assms(1,2), of _ ?g, OF this] assms(4) show ?thesis
    by (simp add: label_weekend_def weekend_column put_cell_fresh)
qed

theorem label_weekend_appends_witness:
  "label_weekend
     \<lparr>columns = [''id'', ''date''],
      rows = [[IntV 1, DateV (Date 2018 5 12)], [IntV 2, DateV (Date 2018 5 16)], [IntV 3, Null]]\<rparr>
     ''date'' ''is_weekend'' =
   Inr \<lparr>columns = [''id'', ''date'', ''is_weekend''],
        rows = [[IntV 1, DateV (Date 2018 5 12), BoolV True],
                [IntV 2, DateV (Date 2018 5 16), BoolV False],
                [IntV 3, Null, Null]]\<rparr>"
  using label_weekend_appends [of
      "\<lparr>columns = [''id'', ''date''],
        rows = [[IntV 1, DateV (Date 2018 5 12)], [IntV 2, DateV (Date 2018 5 16)], [IntV 3, Null]]\<rparr>"
      "''date''" 1 "''is_weekend''"]
  by (simp add: wf_frame_def resolve_def has_date_type_def dayofweek_date_def days_from_civil_def)

section \<open>The calendar and the column-based holiday labellers\<close>

lemma set_dict_keys: "set (dict_keys xs) = set xs"
  by (induction xs) auto

lemma distinct_dict_keys: "distinct (dict_keys xs)"
  by (induction xs) simp_all

lemma populate_member:
  "d \<in> set (populate cal y) \<longleftrightarrow> year d = y \<and> (month d, day d) \<in> set (cal y)"
  by (cases d) (auto simp add: populate_def)

lemma BE_member:
  "d \<in> set (BE cal ys) \<longleftrightarrow> year d \<in> set ys \<and> (month d, day d) \<in> set (cal (year d))"
  by (auto simp add: BE_def set_dict_keys populate_member)

lemma distinct_BE: "distinct (BE cal ys)"
  by (simp add: BE_def distinct_dict_keys)

lemma BE_contains_iff: "BE_contains cal [] d \<longleftrightarrow> (month d, day d) \<in> set (cal (year d))"
  by (simp add: BE_contains_def BE_member)

lemma set_range_py: "y \<in> set (range_py a b) \<longleftrightarrow> a \<le> y \<and> y < b"
  by (auto simp add: range_py_def)

lemma isin_dates:
  "cell_isin (map DateV ds) x =
     Inr (case x of Null \<Rightarrow> Null | DateV d \<Rightarrow> BoolV (d \<in> set ds) | _ \<Rightarrow> BoolV False)"
  by (cases x) (auto simp add: cell_isin_def)

lemma label_holidays2_result:
  assumes "wf_frame f" and "resolve (columns f) c = Inr k"
  shows "label_holidays2 cal f c n =
     Inr \<lparr>columns = (if n \<in> set (columns f) then columns f else columns f @ [n]),
          rows = map (\<lambda>r. put_cell (columns f) n
                    (case r ! k of
                       Null \<Rightarrow> Null
                     | DateV d \<Rightarrow> BoolV (d \<in> set (BE cal (range_py 2015 2020)))
                     | _ \<Rightarrow> BoolV False) r) (rows f)\<rparr>"
  unfolding label_holidays2_def Let_def isin_def
  by (rule withColumn_lift1_col [OF assms]) (simp add: isin_dates)

lemma udf_holiday_cell:
  "(case x of
      Null \<Rightarrow> bind_err (is_belgian_holiday cal None) (\<lambda>b. Inr (BoolV b))
    | DateV d \<Rightarrow> bind_err (is_belgian_holiday cal (Some d)) (\<lambda>b. Inr (BoolV b))
    | _ \<Rightarrow> Inl TypeMismatch) =
   (case x of
      Null \<Rightarrow> Inl PythonTypeError
    | DateV d \<Rightarrow> Inr (BoolV ((month d, day d) \<in> set (cal (year d))))
    | _ \<Rightarrow> Inl TypeMismatch)"
  by (cases x) (simp_all add: is_belgian_holiday_def BE_contains_iff)

lemma label_holidays_result:
  assumes "wf_frame f" and "resolve (columns f) c = Inr k"
    and "\<And>r. r \<in> set (rows f) \<Longrightarrow> \<exists>d. r ! k = DateV d"
  shows "label_holidays cal f c n =
     Inr \<lparr>columns = (if n \<in> set (columns f) then columns f else columns f @ [n]),
          rows = map (\<lambda>r. put_cell (columns f) n
                    (case r ! k of
                       DateV d \<Rightarrow> BoolV ((month d, day d) \<in> set (cal (year d)))
                     | _ \<Rightarrow> Null) r) (rows f)\<rparr>"
  unfolding label_holidays_def Let_def udf_def udf_holiday_cell
proof (rule withColumn_lift1_col [OF assms(1,2)])
  fix r
  assume "r \<in> set (rows f)"
  then obtain d where "r ! k = DateV d"
    using assms(3) by blast
  then show "(case r ! k of
         Null \<Rightarrow> Inl PythonTypeError
       | DateV d \<Rightarrow> Inr (BoolV ((month d, day d) \<in> set (cal (year d))))
       | _ \<Rightarrow> Inl TypeMismatch) =
      Inr (case r ! k of
         DateV d \<Rightarrow> BoolV ((month d, day d) \<in> set (cal (year d)))
       | _ \<Rightarrow> Null)"
    by simp
qed

text \<open>
  C8. \<open>label_holidays2\<close> does not fail on a frame that has the date column, and every
  row whose date lies outside the precomputed years 2015 to 2019 gets the value false
  in every column named by the output attribute, whatever the calendar says about that
  date. In the instance below 2020-07-21 is a holiday of the sample calendar and is
  labelled false.
\<close>

theorem label_holidays2_outside_range:
  assumes "wf_frame f"
    and "resolve (columns f) colname = Inr k"
    and "has_date_type f k"
  shows "\<exists>g. label_holidays2 cal f colname new_colname = Inr g
     \<and> columns g =
         (if new_colname \<in> set (columns f) then columns f else columns f @ [new_colname])
     \<and> length (rows g) = length (rows f)
     \<and> (\<forall>i<length (rows f). \<forall>d. rows f ! i ! k = DateV d \<longrightarrow>
           year d \<notin> set (range_py 2015 2020) \<longrightarrow>
           (\<forall>p<length (columns g). columns g ! p = new_colname \<longrightarrow>
              rows g ! i ! p = BoolV False))"
proof -
  let ?cols = "if new_colname \<in> set (columns f) then columns f else columns f @ [new_colname]"
  let ?v = "\<lambda>r. case r ! k of
      Null \<Rightarrow> Null
    | DateV d \<Rightarrow> BoolV (d \<in> set (BE cal (range_py 2015 2020)))
    | _ \<Rightarrow> BoolV False"
  let ?g = "\<lparr>columns = ?cols,
      rows = map (\<lambda>r. put_cell (columns f) new_colname (?v r) r) (rows f)\<rparr>"
  have run: "label_holidays2 cal f colname new_colname = Inr ?g"
    by (rule label_holidays2_result [OF assms(1,2)])
  have "rows ?g ! i ! p = BoolV False"
    if i: "i < length (rows f)" and d: "rows f ! i ! k = DateV d"
      and out: "year d \<notin> set (range_py 2015 2020)"
      and p: "p < length ?cols" "?cols ! p = new_colname" for i d p
  proof -
    from i have "length (rows f ! i) = length (columns f)"
      by (simp add: wf_frame_row [OF assms(1)])
    from put_cell_nth_named [OF this p] have "rows ?g ! i ! p = ?v (rows f ! i)"
      using i by simp
    also have "\<dots> = BoolV False"
      using d out by (simp add: BE_member)
    finally show ?thesis .
  qed
  with run show ?thesis
    by (intro exI [of _ ?g]) simp
qed

theorem label_holidays2_outside_range_witness:
  "is_belgian_holiday fixed_be (Some (Date 2020 7 21)) = Inr True
   \<and> (\<exists>g. label_holidays2 fixed_be
            \<lparr>columns = [''date''], rows = [[DateV (Date 2020 7 21)]]\<rparr> ''date'' ''is_belgian_holiday''
          = Inr g
        \<and> columns g = [''date'', ''is_belgian_holiday'']
        \<and> rows g ! 0 ! 1 = BoolV False)"
proof -
  let ?f = "\<lparr>columns = [''date''], rows = [[DateV (Date 2020 7 21)]]\<rparr>"
  have h: "wf_frame ?f" "resolve (columns ?f) ''date'' = Inr 0" "has_date_type ?f 0"
    by (simp_all add: wf_frame_def resolve_def has_date_type_def)
  have e: "is_belgian_holiday fixed_be (Some (Date 2020 7 21)) = Inr True"
    by (simp add: is_belgian_holiday_def BE_contains_iff fixed_be_def)
  from label_holidays2_outside_range [OF h, of fixed_be "''is_belgian_holiday''"]
  obtain g where g: "label_holidays2 fixed_be ?f ''date'' ''is_belgian_holiday'' = Inr g"
    "columns g = [''date'', ''is_belgian_holiday'']"
    "\<forall>i<length (rows ?f). \<forall>d. rows ?f ! i ! 0 = DateV d \<longrightarrow>
           year d \<notin> set (range_py 2015 2020) \<longrightarrow>
           (\<forall>p<length (columns g). columns g ! p = ''is_belgian_holiday'' \<longrightarrow>
              rows g ! i ! p = BoolV False)"
    by auto
  from g(3) have "rows g ! 0 ! 1 = BoolV False"
    by (simp add: g(2) set_range_py)
  with g(1,2) e show ?thesis
    by blast
qed


section \<open>The join-based holiday labeller\<close>

lemma filter_eq_distinct:
  "distinct ds \<Longrightarrow> filter (\<lambda>day. day = d) ds = (if d \<in> set ds then [d] else [])"
  by (induction ds) auto

lemma filter_holiday_rows:
  assumes "distinct ds"
  shows "filter (\<lambda>b. x \<noteq> Null \<and> b ! 0 = x) (map (\<lambda>day. [DateV day, BoolV True]) ds) =
     (case x of
        DateV d \<Rightarrow> if d \<in> set ds then [[DateV d, BoolV True]] else []
      | _ \<Rightarrow> [])"
proof (cases x)
  case (DateV d)
  have "filter (\<lambda>b. b ! 0 = DateV d) (map (\<lambda>day. [DateV day, BoolV True]) ds) =
      map (\<lambda>day. [DateV day, BoolV True]) (filter (\<lambda>day. day = d) ds)"
    by (simp add: filter_map comp_def)
  with DateV show ?thesis
    by (simp add: filter_eq_distinct [OF assms])
qed (simp_all add: filter_map comp_def)

lemma wf_holidays_frame: "wf_frame (holidays_frame cal c n)"
  by (simp add: holidays_frame_def createDataFrame_def wf_frame_def list_all_iff)

lemma concat_map_single: "concat (map (\<lambda>a. [g a]) xs) = map g xs"
  by (induction xs) simp_all

lemma join_holidays:
  assumes wf: "wf_frame f" and res: "resolve (columns f) c = Inr k" and ne: "c \<noteq> n"
  shows "join_left spark f (holidays_frame cal c n) c =
     Inr \<lparr>columns = c # drop_at k (columns f) @ [n],
          rows = sort_key spark (map (\<lambda>a. a ! k # drop_at k a @
                    [case a ! k of
                       DateV d \<Rightarrow> if d \<in> set (BE cal (range_py 2015 2020)) then BoolV True else Null
                     | _ \<Rightarrow> Null]) (rows f))\<rparr>"
proof -
  let ?ds = "BE cal (range_py 2015 2020)"
  let ?hf = "holidays_frame cal c n"
  have cols: "columns ?hf = [c, n]" and rws: "rows ?hf = map (\<lambda>day. [DateV day, BoolV True]) ?ds"
    by (simp_all add: holidays_frame_def createDataFrame_def)
  have r0: "resolve (columns ?hf) c = Inr 0"
    using ne by (simp add: cols resolve_def)
  have row: "(case filter (\<lambda>b. a ! k \<noteq> Null \<and> b ! 0 = a ! k) (rows ?hf) of
         [] \<Rightarrow> [a ! k # drop_at k a @ replicate (length (columns ?hf) - 1) Null]
       | m # ms \<Rightarrow> map (\<lambda>b. a ! k # drop_at k a @ drop_at 0 b) (m # ms)) =
      [a ! k # drop_at k a @
         [case a ! k of
            DateV d \<Rightarrow> if d \<in> set ?ds then BoolV True else Null
          | _ \<Rightarrow> Null]]" for a
    unfolding rws filter_holiday_rows [OF distinct_BE] cols
    by (cases "a ! k") (simp_all add: drop_at_def)
  show ?thesis
    unfolding join_left_def checked_wf [OF wf] checked_wf [OF wf_holidays_frame]
      bind_err_Inr res r0 row concat_map_single
    by (simp add: cols drop_at_def)
qed

lemma resolve_last:
  assumes "n \<noteq> c" and "n \<notin> set xs"
  shows "resolve (c # xs @ [n]) n = Inr (Suc (length xs))"
proof -
  from assms(2) have "positions xs n = []"
    by (simp add: positions_empty_iff)
  with assms(1) show ?thesis
    by (simp add: resolve_def positions_append)
qed

lemma resolve_first: "c \<notin> set ys \<Longrightarrow> resolve (c # ys) c = Inr 0"
proof -
  assume "c \<notin> set ys"
  then have "positions ys c = []"
    by (simp add: positions_empty_iff)
  then show ?thesis
    by (simp add: resolve_def)
qed

lemma label_holidays3_result:
  assumes wf: "wf_frame f" and res: "resolve (columns f) c = Inr k"
    and fresh: "n \<notin> set (columns f)"
  shows "label_holidays3 cal spark f c n =
     Inr \<lparr>columns = c # drop_at k (columns f) @ [n],
          rows = map (\<lambda>r. if r ! Suc (length (drop_at k (columns f))) = Null
                          then r[Suc (length (drop_at k (columns f))) := BoolV False] else r)
                   (sort_key spark (map (\<lambda>a. a ! k # drop_at k a @
                      [case a ! k of
                         DateV d \<Rightarrow>
                           if d \<in> set (BE cal (range_py 2015 2020)) then BoolV True else Null
                       | _ \<Rightarrow> Null]) (rows f)))\<rparr>"
proof -
  let ?ds = "BE cal (range_py 2015 2020)"
  let ?v = "\<lambda>a. case a ! k of
      DateV d \<Rightarrow> if d \<in> set ?ds then BoolV True else Null | _ \<Rightarrow> Null"
  let ?j = "\<lparr>columns = c # drop_at k (columns f) @ [n],
      rows = sort_key spark (map (\<lambda>a. a ! k # drop_at k a @ [?v a]) (rows f))\<rparr>"
  note facts = resolve_facts [OF res]
  from facts(4) fresh have ne: "c \<noteq> n"
    by auto
  have len: "length (drop_at k a) = length (drop_at k (columns f))" if "a \<in> set (rows f)" for a
    using wf_frame_row [OF wf that] facts(1) by (simp add: length_drop_at)
  have wfj: "wf_frame ?j"
    by (auto simp add: wf_frame_def list_all_iff len)
  have "n \<notin> set (drop_at k (columns f))"
    using fresh by (auto simp add: drop_at_def dest: in_set_takeD in_set_dropD)
  with ne have rn: "resolve (columns ?j) n = Inr (Suc (length (drop_at k (columns f))))"
    by (simp add: resolve_last)
  show ?thesis
    unfolding label_holidays3_def join_holidays [OF wf res ne] bind_err_Inr na_fill.simps
      fill_column_def checked_wf [OF wfj] rn
    by simp
qed

lemma label_holidays3_fresh:
  assumes wf: "wf_frame f" and res: "resolve (columns f) c = Inr k"
    and fresh: "n \<notin> set (columns f)"
  shows "\<exists>g. label_holidays3 cal spark f c n = Inr g
     \<and> wf_frame g
     \<and> columns g = c # drop_at k (columns f) @ [n]
     \<and> mset (rows g) =
         mset (map (\<lambda>a. a ! k # drop_at k a @
                 [BoolV (case a ! k of
                           DateV d \<Rightarrow> d \<in> set (BE cal (range_py 2015 2020))
                         | _ \<Rightarrow> False)]) (rows f))"
proof -
  let ?ds = "BE cal (range_py 2015 2020)"
  let ?i = "Suc (length (drop_at k (columns f)))"
  let ?J = "\<lambda>a. a ! k # drop_at k a @
      [case a ! k of DateV d \<Rightarrow> if d \<in> set ?ds then BoolV True else Null | _ \<Rightarrow> Null]"
  let ?F = "\<lambda>r. if r ! ?i = Null then r[?i := BoolV False] else r"
  let ?final = "\<lambda>a. a ! k # drop_at k a @
      [BoolV (case a ! k of DateV d \<Rightarrow> d \<in> set ?ds | _ \<Rightarrow> False)]"
  let ?g = "\<lparr>columns = c # drop_at k (columns f) @ [n],
      rows = map ?F (sort_key spark (map ?J (rows f)))\<rparr>"
  note facts = resolve_facts [OF res]
  have len: "length (drop_at k a) = length (drop_at k (columns f))" if "a \<in> set (rows f)" for a
    using wf_frame_row [OF wf that] facts(1) by (simp add: length_drop_at)
  have FJ: "?F (?J a) = ?final a" if "a \<in> set (rows f)" for a
    unfolding len [OF that, symmetric] by (cases "a ! k") simp_all
  have "mset (rows ?g) = image_mset (\<lambda>a. ?F (?J a)) (mset (rows f))"
    by (simp add: multiset.map_comp comp_def)
  also have "\<dots> = image_mset ?final (mset (rows f))"
    by (rule image_mset_cong) (simp only: in_multiset_in_set FJ)
  finally have ms: "mset (rows ?g) = mset (map ?final (rows f))"
    by simp
  have "length r = length (columns ?g)" if "r \<in> set (rows ?g)" for r
  proof -
    from that obtain a where a: "a \<in> set (rows f)" "r = ?F (?J a)"
      by auto
    then have "r = ?final a"
      by (simp only: FJ)
    with len [OF a(1)] show ?thesis
      by simp
  qed
  then have "wf_frame ?g"
    by (simp only: wf_frame_def list_all_iff) blast
  with label_holidays3_result [OF assms, of cal spark] ms show ?thesis
    by (intro exI [of _ ?g]) simp
qed

lemma label_holidays3_sort_merge_example:
  "label_holidays3 fixed_be sort_merge
     \<lparr>columns = [''id'', ''date''],
      rows = [[IntV 1, DateV (Date 2018 7 21)], [IntV 2, DateV (Date 2018 7 22)],
              [IntV 3, Null]]\<rparr> ''date'' ''is_belgian_holiday'' =
   Inr \<lparr>columns = [''date'', ''id'', ''is_belgian_holiday''],
        rows = [[Null, IntV 3, BoolV False],
                [DateV (Date 2018 7 21), IntV 1, BoolV True],
                [DateV (Date 2018 7 22), IntV 2, BoolV False]]\<rparr>"
proof -
  let ?f = "\<lparr>columns = [''id'', ''date''],
      rows = [[IntV 1, DateV (Date 2018 7 21)], [IntV 2, DateV (Date 2018 7 22)],
              [IntV 3, Null]]\<rparr>"
  have h: "wf_frame ?f" "resolve (columns ?f) ''date'' = Inr 1"
    "''is_belgian_holiday'' \<notin> set (columns ?f)"
    by (simp_all add: wf_frame_def resolve_def)
  show ?thesis
    by (simp add: label_holidays3_result [OF h] BE_member set_range_py fixed_be_def
        drop_at_def sort_merge_def days_from_civil_def)
qed

section \<open>The three holiday strategies on a frame without the output column\<close>

lemma select_pair:
  assumes wf: "wf_frame g"
    and a: "resolve (columns g) a = Inr i"
    and b: "resolve (columns g) b = Inr j"
  shows "select g [a, b] =
     Inr \<lparr>columns = [a, b], rows = map (\<lambda>r. [r ! i, r ! j]) (rows g)\<rparr>"
proof -
  have ij: "i < length (columns g)" "j < length (columns g)"
    using resolve_facts(1) [OF a] resolve_facts(1) [OF b] .
  have "traverse (\<lambda>r. traverse (\<lambda>e. e r)
            [\<lambda>r. if i < length r then Inr (r ! i) else Inl MalformedRow,
             \<lambda>r. if j < length r then Inr (r ! j) else Inl MalformedRow]) (rows g)
      = Inr (map (\<lambda>r. [r ! i, r ! j]) (rows g))"
    by (rule traverse_map) (simp add: wf_frame_row [OF wf] ij)
  then show ?thesis
    by (simp add: select_def checked_wf [OF wf] col_def a b)
qed

lemma dates_within_row:
  assumes "dates_within f k lo hi" and "r \<in> set (rows f)"
  shows "\<exists>d. r ! k = DateV d \<and> lo \<le> year d \<and> year d \<le> hi"
proof -
  from assms have "case r ! k of DateV d \<Rightarrow> lo \<le> year d \<and> year d \<le> hi | _ \<Rightarrow> False"
    by (simp add: dates_within_def list_all_iff)
  then show ?thesis
    by (cases "r ! k") simp_all
qed

lemma wf_appended:
  "wf_frame f \<Longrightarrow> wf_frame \<lparr>columns = columns f @ [n], rows = map (\<lambda>r. r @ [v r]) (rows f)\<rparr>"
  by (simp add: wf_frame_def list_all_iff)

lemma select_appended:
  assumes wf: "wf_frame f" and res: "resolve (columns f) c = Inr k"
    and fresh: "n \<notin> set (columns f)"
  shows "select \<lparr>columns = columns f @ [n], rows = map (\<lambda>r. r @ [v r]) (rows f)\<rparr> [c, n] =
     Inr \<lparr>columns = [c, n], rows = map (\<lambda>r. [r ! k, v r]) (rows f)\<rparr>"
proof -
  let ?g = "\<lparr>columns = columns f @ [n], rows = map (\<lambda>r. r @ [v r]) (rows f)\<rparr>"
  note facts = resolve_facts [OF res]
  from facts(4) fresh have ne: "c \<noteq> n"
    by auto
  have a: "resolve (columns ?g) c = Inr k"
    using ne res by (simp add: resolve_append_other)
  have b: "resolve (columns ?g) n = Inr (length (columns f))"
    using fresh by (simp add: resolve_append_fresh)
  have "map (\<lambda>r. [r ! k, r ! length (columns f)]) (rows ?g) = map (\<lambda>r. [r ! k, v r]) (rows f)"
    using facts(1) by (simp add: comp_def nth_append wf_frame_row [OF wf])
  with select_pair [OF wf_appended [OF wf] a b] show ?thesis
    by simp
qed

lemma holiday_strategies_agree_fresh:
  assumes wf: "wf_frame f" and res: "resolve (columns f) c = Inr k"
    and fresh: "n \<notin> set (columns f)"
    and dates: "dates_within f k 2015 2019"
  shows "\<exists>p q. bind_err (label_holidays cal f c n) (\<lambda>g. select g [c, n]) = Inr p
     \<and> bind_err (label_holidays2 cal f c n) (\<lambda>g. select g [c, n]) = Inr p
     \<and> bind_err (label_holidays3 cal spark f c n) (\<lambda>g. select g [c, n]) = Inr q
     \<and> columns q = columns p
     \<and> mset (rows q) = mset (rows p)"
proof -
  let ?h = "\<lambda>r. BoolV (case r ! k of
      DateV d \<Rightarrow> (month d, day d) \<in> set (cal (year d)) | _ \<Rightarrow> False)"
  let ?p = "\<lparr>columns = [c, n], rows = map (\<lambda>r. [r ! k, ?h r]) (rows f)\<rparr>"
  note facts = resolve_facts [OF res]
  note row = dates_within_row [OF dates]
  note sel = select_appended [OF wf res fresh]
  have m1: "map (\<lambda>r. put_cell (columns f) n
          (case r ! k of
             DateV d \<Rightarrow> BoolV ((month d, day d) \<in> set (cal (year d)))
           | _ \<Rightarrow> Null) r) (rows f) = map (\<lambda>r. r @ [?h r]) (rows f)"
  proof (rule map_cong [OF refl])
    fix r
    assume "r \<in> set (rows f)"
    from row [OF this] obtain d where "r ! k = DateV d"
      by blast
    then show "put_cell (columns f) n
        (case r ! k of
           DateV d \<Rightarrow> BoolV ((month d, day d) \<in> set (cal (year d)))
         | _ \<Rightarrow> Null) r = r @ [?h r]"
      using fresh by (simp add: put_cell_fresh)
  qed
  have "\<exists>d. r ! k = DateV d" if "r \<in> set (rows f)" for r
    using row [OF that] by blast
  note label_holidays_result [OF wf res this, of cal n]
  then have 1: "bind_err (label_holidays cal f c n) (\<lambda>g. select g [c, n]) = Inr ?p"
    using fresh by (simp add: m1 sel)
  have m2: "map (\<lambda>r. put_cell (columns f) n
          (case r ! k of
             Null \<Rightarrow> Null
           | DateV d \<Rightarrow> BoolV (d \<in> set (BE cal (range_py 2015 2020)))
           | _ \<Rightarrow> BoolV False) r) (rows f) = map (\<lambda>r. r @ [?h r]) (rows f)"
  proof (rule map_cong [OF refl])
    fix r
    assume "r \<in> set (rows f)"
    from row [OF this] obtain d where "r ! k = DateV d" "2015 \<le> year d" "year d \<le> 2019"
      by blast
    then show "put_cell (columns f) n
        (case r ! k of
           Null \<Rightarrow> Null
         | DateV d \<Rightarrow> BoolV (d \<in> set (BE cal (range_py 2015 2020)))
         | _ \<Rightarrow> BoolV False) r = r @ [?h r]"
      using fresh by (simp add: put_cell_fresh BE_member set_range_py)
  qed
  have 2: "bind_err (label_holidays2 cal f c n) (\<lambda>g. select g [c, n]) = Inr ?p"
    using fresh by (simp add: label_holidays2_result [OF wf res] m2 sel)
  let ?i = "Suc (length (drop_at k (columns f)))"
  let ?final = "\<lambda>a. a ! k # drop_at k a @
      [BoolV (case a ! k of DateV d \<Rightarrow> d \<in> set (BE cal (range_py 2015 2020)) | _ \<Rightarrow> False)]"
  from label_holidays3_fresh [OF wf res fresh, of cal spark]
  obtain g where g: "label_holidays3 cal spark f c n = Inr g" "wf_frame g"
    "columns g = c # drop_at k (columns f) @ [n]"
    "mset (rows g) = mset (map ?final (rows f))"
    by blast
  from facts(4) fresh have ne: "n \<noteq> c"
    by auto
  have nd: "n \<notin> set (drop_at k (columns f))"
    using fresh by (auto simp add: drop_at_def dest: in_set_takeD in_set_dropD)
  have a: "resolve (columns g) c = Inr 0"
    using facts(3) ne by (simp add: g(3) resolve_first)
  have b: "resolve (columns g) n = Inr ?i"
    using ne nd by (simp add: g(3) resolve_last)
  let ?q = "\<lparr>columns = [c, n], rows = map (\<lambda>r. [r ! 0, r ! ?i]) (rows g)\<rparr>"
  have 3: "bind_err (label_holidays3 cal spark f c n) (\<lambda>g. select g [c, n]) = Inr ?q"
    by (simp add: g(1) select_pair [OF g(2) a b])
  have pick: "[?final r ! 0, ?final r ! ?i] = [r ! k, ?h r]" if r: "r \<in> set (rows f)" for r
  proof -
    from row [OF r] obtain d where d: "r ! k = DateV d" "2015 \<le> year d" "year d \<le> 2019"
      by blast
    have "length (drop_at k r) = length (drop_at k (columns f))"
      using wf_frame_row [OF wf r] facts(1) by (simp add: length_drop_at)
    then show ?thesis
      using d by (simp add: nth_append BE_member set_range_py)
  qed
  have "mset (rows ?q) = image_mset (\<lambda>r. [r ! 0, r ! ?i]) (mset (rows g))"
    by simp
  also have "\<dots> = image_mset (\<lambda>r. [?final r ! 0, ?final r ! ?i]) (mset (rows f))"
    by (simp only: g(4) mset_map multiset.map_comp comp_def)
  also have "\<dots> = image_mset (\<lambda>r. [r ! k, ?h r]) (mset (rows f))"
    by (rule image_mset_cong) (simp only: in_multiset_in_set pick)
  also have "\<dots> = mset (rows ?p)"
    by simp
  finally have "mset (rows ?q) = mset (rows ?p)" .
  with 1 2 3 show ?thesis
    by (intro exI [of _ ?p] exI [of _ ?q]) simp
qed

section \<open>Relabelling an already labelled frame\<close>

lemma traverse_Inr_ex:
  assumes "traverse f xs = Inr ys" and "x \<in> set xs"
  shows "\<exists>y. f x = Inr y"
  using traverse_Inr_all [OF assms] by blast

lemma withColumn_Inr:
  assumes "withColumn f n (lift1 h (col c)) = Inr g"
  shows "wf_frame f"
    and "\<exists>k. resolve (columns f) c = Inr k \<and> (\<forall>r\<in>set (rows f). h (r ! k) = Inr (projr (h (r ! k))))"
proof -
  show wf: "wf_frame f"
    using assms by (cases "wf_frame f") (simp_all add: withColumn_def checked_def)
  obtain k where res: "resolve (columns f) c = Inr k"
    using assms by (cases "resolve (columns f) c")
      (simp_all add: withColumn_def checked_wf [OF wf] lift1_def col_def)
  have k: "k < length (columns f)"
    using resolve_facts(1) [OF res] .
  let ?step = "\<lambda>r. bind_err
      (bind_err (if k < length r then Inr (r ! k) else Inl MalformedRow) h)
      (\<lambda>v. Inr (put_cell (columns f) n v r))"
  obtain rs where rs: "traverse ?step (rows f) = Inr rs"
    using assms by (cases "traverse ?step (rows f)")
      (simp_all add: withColumn_def checked_wf [OF wf] lift1_def col_def res)
  have "h (r ! k) = Inr (projr (h (r ! k)))" if r: "r \<in> set (rows f)" for r
  proof -
    from traverse_Inr_ex [OF rs r] obtain y where "?step r = Inr y"
      by blast
    then show ?thesis
      using k by (cases "h (r ! k)") (simp_all add: wf_frame_row [OF wf r])
  qed
  with res show "\<exists>k. resolve (columns f) c = Inr k
      \<and> (\<forall>r\<in>set (rows f). h (r ! k) = Inr (projr (h (r ! k))))"
    by blast
qed

lemma withColumn_relabel:
  assumes run: "withColumn f n (lift1 h (col c)) = Inr g" and ne: "c \<noteq> n"
  shows "withColumn g n (lift1 h (col c)) = Inr g"
    and "columns g = (if n \<in> set (columns f) then columns f else columns f @ [n])"
proof -
  let ?cols = "if n \<in> set (columns f) then columns f else columns f @ [n]"
  let ?G = "\<lambda>x. projr (h x)"
  note wf = withColumn_Inr(1) [OF run]
  from withColumn_Inr(2) [OF run] obtain k where res: "resolve (columns f) c = Inr k"
    and val: "\<And>r. r \<in> set (rows f) \<Longrightarrow> h (r ! k) = Inr (?G (r ! k))"
    by blast
  note facts = resolve_facts [OF res]
  from withColumn_lift1_col [where g = ?G, OF wf res val] run
  have g: "g = \<lparr>columns = ?cols,
      rows = map (\<lambda>r. put_cell (columns f) n (?G (r ! k)) r) (rows f)\<rparr>"
    by simp
  then show cols: "columns g = ?cols"
    by simp
  have wfg: "wf_frame g"
    unfolding g wf_frame_def list_all_iff
    using length_put_cell [of _ "columns f" n] wf_frame_row [OF wf] by auto
  have resg: "resolve (columns g) c = Inr k"
    unfolding cols using res ne by (simp add: resolve_append_other)
  have same: "put_cell (columns f) n v r ! k = r ! k" if "r \<in> set (rows f)" for r v
    using wf_frame_row [OF wf that] facts(1,2) ne by (intro put_cell_nth_other) simp_all
  have valg: "h (r ! k) = Inr (?G (r ! k))" if "r \<in> set (rows g)" for r
    using that val by (auto simp add: g same)
  have "map (\<lambda>r. put_cell (columns g) n (?G (r ! k)) r) (rows g) = rows g"
    unfolding cols
    by (simp add: g comp_def same put_cell_twice wf_frame_row [OF wf] cong: map_cong)
  moreover have "(if n \<in> set (columns g) then columns g else columns g @ [n]) = columns g"
    by (simp add: cols)
  ultimately show "withColumn g n (lift1 h (col c)) = Inr g"
    by (simp add: withColumn_lift1_col [where g = ?G, OF wfg resg valg])
qed

lemma resolve_twice:
  assumes "n \<in> set xs"
  shows "resolve (c # xs @ [n]) n = Inl (AmbiguousReference n)"
proof -
  from assms obtain i rest where "positions xs n = i # rest"
    using positions_empty_iff [of xs n] by (cases "positions xs n") auto
  then show ?thesis
    by (simp add: resolve_def positions_append split: list.splits)
qed

lemma label_holidays3_existing_column:
  assumes wf: "wf_frame f" and res: "resolve (columns f) c = Inr k"
    and ne: "c \<noteq> n" and old: "n \<in> set (columns f)"
  shows "label_holidays3 cal spark f c n = Inl (AmbiguousReference n)"
proof -
  let ?v = "\<lambda>a. case a ! k of
      DateV d \<Rightarrow> if d \<in> set (BE cal (range_py 2015 2020)) then BoolV True else Null
    | _ \<Rightarrow> Null"
  let ?j = "\<lparr>columns = c # drop_at k (columns f) @ [n],
      rows = sort_key spark (map (\<lambda>a. a ! k # drop_at k a @ [?v a]) (rows f))\<rparr>"
  note facts = resolve_facts [OF res]
  have len: "length (drop_at k a) = length (drop_at k (columns f))" if "a \<in> set (rows f)" for a
    using wf_frame_row [OF wf that] facts(1) by (simp add: length_drop_at)
  have wfj: "wf_frame ?j"
    by (auto simp add: wf_frame_def list_all_iff len)
  have "columns f = take k (columns f) @ columns f ! k # drop (Suc k) (columns f)"
    by (rule id_take_nth_drop [OF facts(1)])
  then have "set (columns f) = insert c (set (drop_at k (columns f)))"
    using facts(2) by (metis drop_at_def list.simps(15) set_append Un_insert_right)
  with old ne have "n \<in> set (drop_at k (columns f))"
    by auto
  then have "resolve (columns ?j) n = Inl (AmbiguousReference n)"
    by (simp add: resolve_twice)
  then have "fill_column False n ?j = Inl (AmbiguousReference n)"
    by (simp add: fill_column_def checked_wf [OF wfj])
  then show ?thesis
    by (simp add: label_holidays3_def join_holidays [OF wf res ne])
qed

lemma label_weekend_relabel:
  assumes "label_weekend f c n = Inr g" and "c \<noteq> n"
  shows "label_weekend g c n = Inr g"
  using assms unfolding label_weekend_def weekend_column
  by (rule withColumn_relabel(1))

lemma label_holidays_relabel:
  assumes "label_holidays cal f c n = Inr g" and "c \<noteq> n"
  shows "label_holidays cal g c n = Inr g"
  using assms unfolding label_holidays_def Let_def udf_def
  by (rule withColumn_relabel(1))

lemma label_holidays2_relabel:
  assumes "label_holidays2 cal f c n = Inr g" and "c \<noteq> n"
  shows "label_holidays2 cal g c n = Inr g"
  using assms unfolding label_holidays2_def Let_def isin_def
  by (rule withColumn_relabel(1))

text \<open>
  C9. Relabelling with the same output attribute. The column-based labellers replace an
  existing output column in place, so that labelling an already labelled frame returns
  it unchanged (the three lemmas above). \<open>label_holidays3\<close> does not: applied to the
  frame it has produced itself from a one-row input, its join keeps the existing
  attribute and adds a second one of the same name, and the fill step fails on the
  ambiguous name, whereas \<open>label_holidays2\<close> and \<open>label_holidays\<close> return that frame
  unchanged. This holds for every session.
\<close>

theorem relabel_join_strategy_fails:
  "label_holidays3 fixed_be spark
     \<lparr>columns = [''date''], rows = [[DateV (Date 2018 7 21)]]\<rparr>
     ''date'' ''is_belgian_holiday'' =
   Inr \<lparr>columns = [''date'', ''is_belgian_holiday''],
        rows = [[DateV (Date 2018 7 21), BoolV True]]\<rparr>
   \<and> label_holidays3 fixed_be spark
     \<lparr>columns = [''date'', ''is_belgian_holiday''],
      rows = [[DateV (Date 2018 7 21), BoolV True]]\<rparr>
     ''date'' ''is_belgian_holiday'' =
   Inl (AmbiguousReference ''is_belgian_holiday'')
   \<and> label_holidays2 fixed_be
     \<lparr>columns = [''date'', ''is_belgian_holiday''],
      rows = [[DateV (Date 2018 7 21), BoolV True]]\<rparr>
     ''date'' ''is_belgian_holiday'' =
   Inr \<lparr>columns = [''date'', ''is_belgian_holiday''],
        rows = [[DateV (Date 2018 7 21), BoolV True]]\<rparr>
   \<and> label_holidays fixed_be
     \<lparr>columns = [''date'', ''is_belgian_holiday''],
      rows = [[DateV (Date 2018 7 21), BoolV True]]\<rparr>
     ''date'' ''is_belgian_holiday'' =
   Inr \<lparr>columns = [''date'', ''is_belgian_holiday''],
        rows = [[DateV (Date 2018 7 21), BoolV True]]\<rparr>"
proof -
  let ?f = "\<lparr>columns = [''date''], rows = [[DateV (Date 2018 7 21)]]\<rparr>"
  let ?g = "\<lparr>columns = [''date'', ''is_belgian_holiday''],
      rows = [[DateV (Date 2018 7 21), BoolV True]]\<rparr>"
  have f: "wf_frame ?f" "resolve (columns ?f) ''date'' = Inr 0"
    "''is_belgian_holiday'' \<notin> set (columns ?f)"
    by (simp_all add: wf_frame_def resolve_def)
  have g: "wf_frame ?g" "resolve (columns ?g) ''date'' = Inr 0"
    "''date'' \<noteq> ''is_belgian_holiday''" "''is_belgian_holiday'' \<in> set (columns ?g)"
    by (simp_all add: wf_frame_def resolve_def)
  have 1: "label_holidays3 fixed_be spark ?f ''date'' ''is_belgian_holiday'' = Inr ?g"
    by (simp add: label_holidays3_result [OF f] BE_member set_range_py fixed_be_def drop_at_def)
  have 2: "label_holidays3 fixed_be spark ?g ''date'' ''is_belgian_holiday'' =
      Inl (AmbiguousReference ''is_belgian_holiday'')"
    by (rule label_holidays3_existing_column [OF g])
  have 3: "label_holidays2 fixed_be ?g ''date'' ''is_belgian_holiday'' = Inr ?g"
    by (simp add: label_holidays2_result [OF g(1,2)] BE_member set_range_py fixed_be_def
        put_cell_def)
  have "\<exists>d. r ! 0 = DateV d" if "r \<in> set (rows ?g)" for r
    using that by simp
  from label_holidays_result [OF g(1,2) this, of fixed_be "''is_belgian_holiday''"]
  have 4: "label_holidays fixed_be ?g ''date'' ''is_belgian_holiday'' = Inr ?g"
    by (simp add: fixed_be_def put_cell_def)
  from 1 2 3 4 show ?thesis
    by (intro conjI)
qed

text \<open>
  C2. The three strategies on a frame whose dates all lie in the precomputed years 2015
  to 2019 and which already has the output column, here with stale values:
  \<open>label_holidays\<close> and \<open>label_holidays2\<close> replace the column and give the same
  (date, is_holiday) pairs, whereas \<open>label_holidays3\<close> gives no pairs at all: it fails
  on the ambiguous name, for every session. On a frame without the output column the
  three strategies give the same pairs, up to the order in which the join returns its
  rows (lemma \<open>holiday_strategies_agree_fresh\<close>).
\<close>

theorem holiday_strategies_differ_on_labelled_frame:
  "bind_err (label_holidays fixed_be
       \<lparr>columns = [''date'', ''is_belgian_holiday''],
        rows = [[DateV (Date 2018 7 21), BoolV False], [DateV (Date 2018 7 22), BoolV True]]\<rparr>
       ''date'' ''is_belgian_holiday'')
     (\<lambda>g. select g [''date'', ''is_belgian_holiday'']) =
   Inr \<lparr>columns = [''date'', ''is_belgian_holiday''],
        rows = [[DateV (Date 2018 7 21), BoolV True], [DateV (Date 2018 7 22), BoolV False]]\<rparr>
   \<and> bind_err (label_holidays2 fixed_be
       \<lparr>columns = [''date'', ''is_belgian_holiday''],
        rows = [[DateV (Date 2018 7 21), BoolV False], [DateV (Date 2018 7 22), BoolV True]]\<rparr>
       ''date'' ''is_belgian_holiday'')
     (\<lambda>g. select g [''date'', ''is_belgian_holiday'']) =
   Inr \<lparr>columns = [''date'', ''is_belgian_holiday''],
        rows = [[DateV (Date 2018 7 21), BoolV True], [DateV (Date 2018 7 22), BoolV False]]\<rparr>
   \<and> bind_err (label_holidays3 fixed_be spark
       \<lparr>columns = [''date'', ''is_belgian_holiday''],
        rows = [[DateV (Date 2018 7 21), BoolV False], [DateV (Date 2018 7 22), BoolV True]]\<rparr>
       ''date'' ''is_belgian_holiday'')
     (\<lambda>g. select g [''date'', ''is_belgian_holiday'']) =
   Inl (AmbiguousReference ''is_belgian_holiday'')"
proof -
  let ?g = "\<lparr>columns = [''date'', ''is_belgian_holiday''],
      rows = [[DateV (Date 2018 7 21), BoolV False], [DateV (Date 2018 7 22), BoolV True]]\<rparr>"
  let ?p = "\<lparr>columns = [''date'', ''is_belgian_holiday''],
      rows = [[DateV (Date 2018 7 21), BoolV True], [DateV (Date 2018 7 22), BoolV False]]\<rparr>"
  have g: "wf_frame ?g" "resolve (columns ?g) ''date'' = Inr 0"
    "''date'' \<noteq> ''is_belgian_holiday''" "''is_belgian_holiday'' \<in> set (columns ?g)"
    by (simp_all add: wf_frame_def resolve_def)
  have p: "wf_frame ?p" "resolve (columns ?p) ''date'' = Inr 0"
    "resolve (columns ?p) ''is_belgian_holiday'' = Inr 1"
    by (simp_all add: wf_frame_def resolve_def)
  have sel: "select ?p [''date'', ''is_belgian_holiday''] = Inr ?p"
    by (simp add: select_pair [OF p])
  have "\<exists>d. r ! 0 = DateV d" if "r \<in> set (rows ?g)" for r
    using that by auto
  from label_holidays_result [OF g(1,2) this, of fixed_be "''is_belgian_holiday''"]
  have 1: "label_holidays fixed_be ?g ''date'' ''is_belgian_holiday'' = Inr ?p"
    by (simp add: fixed_be_def put_cell_def)
  have 2: "label_holidays2 fixed_be ?g ''date'' ''is_belgian_holiday'' = Inr ?p"
    by (simp add: label_holidays2_result [OF g(1,2)] BE_member set_range_py fixed_be_def
        put_cell_def)
  have 3: "label_holidays3 fixed_be spark ?g ''date'' ''is_belgian_holiday'' =
      Inl (AmbiguousReference ''is_belgian_holiday'')"
    by (rule label_holidays3_existing_column [OF g])
  show ?thesis
    by (simp only: 1 2 3 bind_err_Inr bind_err_Inl sel simp_thms)
qed

text \<open>
  C7. A row whose date is not in the precomputed holiday set, in a frame that already
  has the output column, as \<open>label_holidays2\<close> returns it: \<open>label_holidays3\<close> does not
  give the row the value false, it fails on the ambiguous name, for every session. On a
  frame without the output column every row of its result ends with a boolean, false
  for a date outside the holiday set and for a null date (lemma
  \<open>label_holidays3_fresh\<close>).
\<close>

theorem join_strategy_raises_on_non_holiday_row:
  "label_holidays2 fixed_be
     \<lparr>columns = [''date''], rows = [[DateV (Date 2018 7 22)]]\<rparr>
     ''date'' ''is_belgian_holiday'' =
   Inr \<lparr>columns = [''date'', ''is_belgian_holiday''],
        rows = [[DateV (Date 2018 7 22), BoolV False]]\<rparr>
   \<and> Date 2018 7 22 \<notin> set (BE fixed_be (range_py 2015 2020))
   \<and> label_holidays3 fixed_be spark
     \<lparr>columns = [''date'', ''is_belgian_holiday''],
      rows = [[DateV (Date 2018 7 22), BoolV False]]\<rparr>
     ''date'' ''is_belgian_holiday'' =
   Inl (AmbiguousReference ''is_belgian_holiday'')"
proof -
  let ?f = "\<lparr>columns = [''date''], rows = [[DateV (Date 2018 7 22)]]\<rparr>"
  let ?g = "\<lparr>columns = [''date'', ''is_belgian_holiday''],
      rows = [[DateV (Date 2018 7 22), BoolV False]]\<rparr>"
  have f: "wf_frame ?f" "resolve (columns ?f) ''date'' = Inr 0"
    by (simp_all add: wf_frame_def resolve_def)
  have g: "wf_frame ?g" "resolve (columns ?g) ''date'' = Inr 0"
    "''date'' \<noteq> ''is_belgian_holiday''" "''is_belgian_holiday'' \<in> set (columns ?g)"
    by (simp_all add: wf_frame_def resolve_def)
  have 1: "label_holidays2 fixed_be ?f ''date'' ''is_belgian_holiday'' = Inr ?g"
    by (simp add: label_holidays2_result [OF f] BE_member set_range_py fixed_be_def
        put_cell_def)
  have 2: "Date 2018 7 22 \<notin> set (BE fixed_be (range_py 2015 2020))"
    by (simp add: BE_member fixed_be_def)
  have 3: "label_holidays3 fixed_be spark ?g ''date'' ''is_belgian_holiday'' =
      Inl (AmbiguousReference ''is_belgian_holiday'')"
    by (rule label_holidays3_existing_column [OF g])
  from 1 2 3 show ?thesis
    by (intro conjI)
qed

text \<open>
  C10. A frame of two rows that already has the output column, as \<open>label_holidays\<close>
  returns it: \<open>label_holidays3\<close> returns no row set, where one output row per input
  row is claimed; it fails on the ambiguous name, for every session, whereas
  \<open>label_holidays2\<close> returns both rows unchanged. On a frame without the output column
  the rows of its result are, as a multiset, the input rows with the date cell moved to
  the front and one boolean appended (lemma \<open>label_holidays3_fresh\<close>).
\<close>

theorem join_strategy_returns_no_rows_on_labelled_frame:
  "label_holidays fixed_be
     \<lparr>columns = [''id'', ''date''],
      rows = [[IntV 1, DateV (Date 2018 7 21)], [IntV 2, DateV (Date 2018 7 22)]]\<rparr>
     ''date'' ''is_belgian_holiday'' =
   Inr \<lparr>columns = [''id'', ''date'', ''is_belgian_holiday''],
        rows = [[IntV 1, DateV (Date 2018 7 21), BoolV True],
                [IntV 2, DateV (Date 2018 7 22), BoolV False]]\<rparr>
   \<and> label_holidays3 fixed_be spark
     \<lparr>columns = [''id'', ''date'', ''is_belgian_holiday''],
      rows = [[IntV 1, DateV (Date 2018 7 21), BoolV True],
              [IntV 2, DateV (Date 2018 7 22), BoolV False]]\<rparr>
     ''date'' ''is_belgian_holiday'' =
   Inl (AmbiguousReference ''is_belgian_holiday'')
   \<and> label_holidays2 fixed_be
     \<lparr>columns = [''id'', ''date'', ''is_belgian_holiday''],
      rows = [[IntV 1, DateV (Date 2018 7 21), BoolV True],
              [IntV 2, DateV (Date 2018 7 22), BoolV False]]\<rparr>
     ''date'' ''is_belgian_holiday'' =
   Inr \<lparr>columns = [''id'', ''date'', ''is_belgian_holiday''],
        rows = [[IntV 1, DateV (Date 2018 7 21), BoolV True],
                [IntV 2, DateV (Date 2018 7 22), BoolV False]]\<rparr>"
proof -
  let ?f = "\<lparr>columns = [''id'', ''date''],
      rows = [[IntV 1, DateV (Date 2018 7 21)], [IntV 2, DateV (Date 2018 7 22)]]\<rparr>"
  let ?g = "\<lparr>columns = [''id'', ''date'', ''is_belgian_holiday''],
      rows = [[IntV 1, DateV (Date 2018 7 21), BoolV True],
              [IntV 2, DateV (Date 2018 7 22), BoolV False]]\<rparr>"
  have f: "wf_frame ?f" "resolve (columns ?f) ''date'' = Inr 1"
    by (simp_all add: wf_frame_def resolve_def)
  have g: "wf_frame ?g" "resolve (columns ?g) ''date'' = Inr 1"
    "''date'' \<noteq> ''is_belgian_holiday''" "''is_belgian_holiday'' \<in> set (columns ?g)"
    by (simp_all add: wf_frame_def resolve_def)
  have "\<exists>d. r ! 1 = DateV d" if "r \<in> set (rows ?f)" for r
    using that by auto
  from label_holidays_result [OF f this, of fixed_be "''is_belgian_holiday''"]
  have 1: "label_holidays fixed_be ?f ''date'' ''is_belgian_holiday'' = Inr ?g"
    by (simp add: fixed_be_def put_cell_def)
  have 2: "label_holidays3 fixed_be spark ?g ''date'' ''is_belgian_holiday'' =
      Inl (AmbiguousReference ''is_belgian_holiday'')"
    by (rule label_holidays3_existing_column [OF g])
  have 3: "label_holidays2 fixed_be ?g ''date'' ''is_belgian_holiday'' = Inr ?g"
    by (simp add: label_holidays2_result [OF g(1,2)] BE_member set_range_py fixed_be_def
        put_cell_def)
  from 1 2 3 show ?thesis
    by (intro conjI)
qed

end
